theory Spec2Isabelle
  imports Complex_Main
begin

section \<open>Arrays, failures and the library calls of the program\<close>

text \<open>
  The program computes on one-dimensional NumPy arrays of floats. An array is a list of
  reals here: the arithmetic is exact, so rounding, overflow and underflow of the floats
  are outside the model, and so are the limits of memory and of 64-bit counts. A scalar
  argument that NumPy would broadcast is the array of length one.

  A run of the program ends in a value or in one of the failures below. The first three
  are the exceptions that Python and NumPy raise. \<open>FloatingPoint\<close> is not an exception:
  it stands for a float division by zero, at which NumPy warns and goes on with
  \<open>inf\<close> or \<open>nan\<close> in the array. The reals have no such values, so the model stops
  there and says so.
\<close>

type_synonym ndarray = "real list"

datatype value_error =
    ZeroSizeReduction    \<comment> \<open>zero-size array to reduction operation which has no identity\<close>
  | BroadcastMismatch    \<comment> \<open>operands could not be broadcast together\<close>
  | ArangeLength         \<comment> \<open>arange: maximum allowed size exceeded, step is 0\<close>
  | BinsNotMonotonic     \<comment> \<open>histogram: bins must increase monotonically\<close>
  | NoPointOnAxis        \<comment> \<open>cumulative_trapezoid: at least one point is required\<close>
  | LengthOfX            \<comment> \<open>cumulative_trapezoid: length of x must be the same as y\<close>
  | NegativeParameter    \<comment> \<open>random draw: lam < 0 or scale < 0\<close>

datatype py_error =
    ValueError value_error
  | KeyError real
  | IndexError
  | FloatingPoint

text \<open>Broadcasting of two one-dimensional operands: equal lengths, or one of length one.\<close>

definition np_broadcast :: "ndarray \<Rightarrow> ndarray \<Rightarrow> py_error + (real \<times> real) list" where
  "np_broadcast xs ys =
     (if length xs = length ys then Inr (zip xs ys)
      else if length xs = 1 then Inr (map (\<lambda>y. (hd xs, y)) ys)
      else if length ys = 1 then Inr (map (\<lambda>x. (x, hd ys)) xs)
      else Inl (ValueError BroadcastMismatch))"

definition np_add :: "ndarray \<Rightarrow> ndarray \<Rightarrow> py_error + ndarray" where
  "np_add xs ys =
     (case np_broadcast xs ys of
        Inl e \<Rightarrow> Inl e
      | Inr ps \<Rightarrow> Inr (map (\<lambda>(x, y). x + y) ps))"

definition np_multiply :: "ndarray \<Rightarrow> ndarray \<Rightarrow> py_error + ndarray" where
  "np_multiply xs ys =
     (case np_broadcast xs ys of
        Inl e \<Rightarrow> Inl e
      | Inr ps \<Rightarrow> Inr (map (\<lambda>(x, y). x * y) ps))"

definition np_divide :: "ndarray \<Rightarrow> ndarray \<Rightarrow> py_error + ndarray" where
  "np_divide xs ys =
     (case np_broadcast xs ys of
        Inl e \<Rightarrow> Inl e
      | Inr ps \<Rightarrow>
          if list_ex (\<lambda>(x, y). y = 0) ps then Inl FloatingPoint
          else Inr (map (\<lambda>(x, y). x / y) ps))"

text \<open>
  The in-place \<open>xs += ys\<close>: the result keeps the shape of \<open>xs\<close>, so only \<open>ys\<close> may be
  stretched.
\<close>

definition np_iadd :: "ndarray \<Rightarrow> ndarray \<Rightarrow> py_error + ndarray" where
  "np_iadd xs ys =
     (if length ys = length xs then Inr (map (\<lambda>(x, y). x + y) (zip xs ys))
      else if length ys = 1 then Inr (map (\<lambda>x. x + hd ys) xs)
      else Inl (ValueError BroadcastMismatch))"

definition np_min :: "ndarray \<Rightarrow> py_error + real" where
  "np_min xs = (if xs = [] then Inl (ValueError ZeroSizeReduction) else Inr (Min (set xs)))"

definition np_max :: "ndarray \<Rightarrow> py_error + real" where
  "np_max xs = (if xs = [] then Inl (ValueError ZeroSizeReduction) else Inr (Max (set xs)))"

text \<open>
  \<open>np.arange(start, stop, step)\<close> on floats has \<open>ceil((stop - start) / step)\<close> elements
  (none when that is not positive), the \<open>i\<close>-th being \<open>start + i * step\<close>.
\<close>

definition np_arange :: "real \<Rightarrow> real \<Rightarrow> real \<Rightarrow> py_error + ndarray" where
  "np_arange start stop step =
     (if step = 0 then Inl (ValueError ArangeLength)
      else Inr (map (\<lambda>i. start + real i * step) [0..<nat \<lceil>(stop - start) / step\<rceil>]))"

text \<open>\<open>np.diff\<close>: \<open>xs[1:] - xs[:-1]\<close>.\<close>

definition np_diff :: "'a::minus list \<Rightarrow> 'a list" where
  "np_diff xs = map (\<lambda>(a, b). b - a) (zip xs (tl xs))"

text \<open>
  \<open>np.histogram\<close> with an array of bin edges counts through a cumulative histogram: for
  every edge but the last, the number of samples strictly below it (\<open>searchsorted\<close> on the
  left); for the last edge, the number of samples up to and including it (on the right).
  The counts are the differences. So every bin is closed on the left and open on the
  right, but the last, which is closed on both sides; \<open>n\<close> edges make \<open>n - 1\<close> bins, and
  fewer than two edges make none.
\<close>

definition search_sorted_inclusive :: "ndarray \<Rightarrow> ndarray \<Rightarrow> int list" where
  "search_sorted_inclusive a v =
     map (\<lambda>e. int (length (filter (\<lambda>x. x < e) a))) (butlast v) @
     map (\<lambda>e. int (length (filter (\<lambda>x. x \<le> e) a))) (if v = [] then [] else [last v])"

definition np_histogram :: "ndarray \<Rightarrow> ndarray \<Rightarrow> py_error + (int list \<times> ndarray)" where
  "np_histogram a bins =
     (if \<not> sorted bins then Inl (ValueError BinsNotMonotonic)
      else Inr (np_diff (search_sorted_inclusive a bins), bins))"

text \<open>
  What these counts count, as NumPy documents it: the bin \<open>i\<close> holds the samples from the
  edge \<open>i\<close> up to the edge \<open>i + 1\<close>, which it excludes unless it is the last edge.
\<close>

definition in_bin :: "ndarray \<Rightarrow> nat \<Rightarrow> real \<Rightarrow> bool" where
  "in_bin edges i x =
     (edges ! i \<le> x \<and> (if Suc (Suc i) = length edges then x \<le> edges ! Suc i else x < edges ! Suc i))"

text \<open>
  The expression \<open>dArea / (4 * np.pi * (distMag / 1000)**2)\<close>, which stands at line 190
  of forwardPass.py and at line 50 of Reconstruction.py.
\<close>

definition sensitivity :: "real \<Rightarrow> ndarray \<Rightarrow> py_error + ndarray" where
  "sensitivity dArea distMag =
     (if list_ex (\<lambda>d. d = 0) distMag then Inl FloatingPoint
      else Inr (map (\<lambda>d. dArea / (4 * pi * (d / 1000)\<^sup>2)) distMag))"

section \<open>forwardPass.py\<close>

subsection \<open>CreateBraggCurve\<close>

text \<open>
  Lines 82 to 96, element by element: the plateau plus the Gaussian peak, multiplied by
  the exponential fall-off at the depths beyond the peak. The peak divides by
  \<open>2 * peakWidth**2\<close> at every depth, the fall-off by \<open>falloffSteepness\<close> at the depths
  under the mask.
\<close>

definition CreateBraggCurve ::
  "ndarray \<Rightarrow> real \<Rightarrow> real \<Rightarrow> real \<Rightarrow> real \<Rightarrow> real \<Rightarrow> py_error + ndarray" where
  "CreateBraggCurve depths braggPosition peakHeight entranceDose peakWidth falloffSteepness =
     (if peakWidth = 0 \<and> depths \<noteq> [] then Inl FloatingPoint
      else if falloffSteepness = 0 \<and> list_ex (\<lambda>d. d > braggPosition) depths
      then Inl FloatingPoint
      else Inr (map (\<lambda>d.
        let entrance = entranceDose;
            peak = peakHeight * exp ((- ((d - braggPosition)\<^sup>2)) / (2 * peakWidth\<^sup>2))
        in if d > braggPosition
           then (entrance + peak) * exp ((- (d - braggPosition)) / falloffSteepness)
           else entrance + peak) depths))"

text \<open>The call with the defaults of the signature, as every caller makes it.\<close>

definition CreateBraggCurve_default :: "ndarray \<Rightarrow> real \<Rightarrow> py_error + ndarray" where
  "CreateBraggCurve_default depths braggPosition =
     CreateBraggCurve depths braggPosition 1.0 0.3 8 5"

subsection \<open>velocities\<close>

text \<open>
  The table \<open>energies\<close> is a module-level dictionary read from a file that is not part of
  the sources; it is a parameter here. Lines 114 to 124 are the loop, which appends one
  velocity per depth and raises \<open>KeyError\<close> at the first depth that is not a key.
\<close>

fun velocities_loop :: "(real \<rightharpoonup> real) \<Rightarrow> real \<Rightarrow> real list \<Rightarrow> ndarray \<Rightarrow> py_error + ndarray"
  where
  "velocities_loop energies initialE [] vel = Inr vel"
| "velocities_loop energies initialE (z # zs) vel =
     (case energies z of
        None \<Rightarrow> Inl (KeyError z)
      | Some e \<Rightarrow>
          (let energy = initialE - e;
               energy = (if energy \<le> 0 then 0 else energy);
               beta = sqrt (1 - (938.3 / (energy + 938.3))\<^sup>2);
               velocity = beta * 300000000
           in velocities_loop energies initialE zs (vel @ [velocity])))"

text \<open>Lines 127 and 128 assign to \<open>vel[0]\<close> and \<open>vel[1]\<close>, out of range in a shorter array.\<close>

definition velocities :: "(real \<rightharpoonup> real) \<Rightarrow> ndarray \<Rightarrow> real \<Rightarrow> py_error + ndarray" where
  "velocities energies phantom initialE =
     (case velocities_loop energies initialE phantom [] of
        Inl e \<Rightarrow> Inl e
      | Inr vel \<Rightarrow>
          if length vel < 1 then Inl IndexError
          else let vel = vel[0 := 0.662 * 300000000]
               in if length vel < 2 then Inl IndexError
                  else Inr (vel[1 := 0.662 * 300000000]))"

subsection \<open>ProtonTime\<close>

text \<open>
  Lines 145 to 152: the reciprocal of every velocity, and 0 for a velocity of 0. The
  argument that the source calls \<open>velocities\<close> is \<open>vel\<close> here.
\<close>

definition integrand :: "ndarray \<Rightarrow> ndarray" where
  "integrand vel = map (\<lambda>velocity. if velocity = 0 then 0 else 1 / velocity) vel"

fun cumsum_from :: "real \<Rightarrow> ndarray \<Rightarrow> ndarray" where
  "cumsum_from acc [] = []"
| "cumsum_from acc (x # xs) = (acc + x) # cumsum_from (acc + x) xs"

definition np_cumsum :: "ndarray \<Rightarrow> ndarray" where
  "np_cumsum xs = cumsum_from 0 xs"

text \<open>
  SciPy's \<open>cumulative_trapezoid(y, x, initial=0)\<close>: it refuses an empty \<open>y\<close> and an \<open>x\<close>
  whose differences are not one fewer than \<open>y\<close>, and returns 0 followed by the cumulative
  sums of \<open>diff(x) * (y[1:] + y[:-1]) / 2\<close>.
\<close>

definition cumulative_trapezoid :: "ndarray \<Rightarrow> ndarray \<Rightarrow> py_error + ndarray" where
  "cumulative_trapezoid y x =
     (if y = [] then Inl (ValueError NoPointOnAxis)
      else let d = np_diff x in
        if length d \<noteq> length y - 1 then Inl (ValueError LengthOfX)
        else Inr (0 # np_cumsum
               (map (\<lambda>(d, (a, b)). d * (a + b) / 2) (zip d (zip (tl y) (butlast y))))))"

definition ProtonTime :: "ndarray \<Rightarrow> ndarray \<Rightarrow> py_error + ndarray" where
  "ProtonTime vel phantom = cumulative_trapezoid (integrand vel) phantom"

subsection \<open>SimulateBurst\<close>

text \<open>
  The function draws from NumPy's global random generator. The draws are an argument
  here: the Poisson draw of the signal and of the background for every depth bin, and the
  standard normal draw for every timestamp. What the model keeps of their laws is what
  holds of every draw: a Poisson draw of mean 0 is 0, and a normal draw of mean 0 and
  scale \<open>s\<close> is \<open>s\<close> times a standard normal one. A negative mean or scale is refused.
\<close>

record random_source =
  poisson_signal :: "nat \<Rightarrow> nat"
  poisson_background :: "nat \<Rightarrow> nat"
  standard_normal :: "nat \<Rightarrow> real"

text \<open>Lines 182 to 190: the mean number of photons detected from every depth bin.\<close>

definition expected_counts ::
  "ndarray \<Rightarrow> ndarray \<Rightarrow> real \<Rightarrow> real \<Rightarrow> real \<Rightarrow> real \<Rightarrow> real \<Rightarrow> py_error + ndarray" where
  "expected_counts phantom distMag peak pPB yiel dArea mu =
     (case CreateBraggCurve_default phantom peak of
        Inl e \<Rightarrow> Inl e
      | Inr dose \<Rightarrow>
          (case np_max dose of
             Inl e \<Rightarrow> Inl e
           | Inr m \<Rightarrow>
               if m = 0 then Inl FloatingPoint
               else
                 let dose = map (\<lambda>x. x / m) dose;
                     nEmit = map (\<lambda>x. pPB * yiel * x) dose;
                     attenuationFactor = map (\<lambda>d. exp ((- mu) * (d / 10))) distMag
                 in (case sensitivity dArea distMag of
                       Inl e \<Rightarrow> Inl e
                     | Inr sens \<Rightarrow>
                         (case np_multiply nEmit sens of
                            Inl e \<Rightarrow> Inl e
                          | Inr detected \<Rightarrow> np_multiply detected attenuationFactor))))"

text \<open>Lines 193 and 194: the counts drawn, signal plus background of mean 2.\<close>

definition detected_counts :: "random_source \<Rightarrow> ndarray \<Rightarrow> py_error + nat list" where
  "detected_counts rng mean =
     (if list_ex (\<lambda>lam. lam < 0) mean then Inl (ValueError NegativeParameter)
      else Inr (map (\<lambda>(i, lam). (if lam = 0 then 0 else poisson_signal rng i)
                                 + poisson_background rng i)
                  (zip [0..<length mean] mean)))"

text \<open>\<open>np.repeat(xs, k)\<close> with an array of repeats, which is stretched when of length one.\<close>

definition np_repeat :: "ndarray \<Rightarrow> nat list \<Rightarrow> py_error + ndarray" where
  "np_repeat xs k =
     (if length k = length xs then Inr (concat (map (\<lambda>(x, n). replicate n x) (zip xs k)))
      else if length k = 1 then Inr (concat (map (replicate (hd k)) xs))
      else Inl (ValueError BroadcastMismatch))"

text \<open>\<open>np.random.normal(0, scale, size=n)\<close>.\<close>

definition np_random_normal :: "random_source \<Rightarrow> real \<Rightarrow> nat \<Rightarrow> py_error + ndarray" where
  "np_random_normal rng scale n =
     (if scale < 0 then Inl (ValueError NegativeParameter)
      else Inr (map (\<lambda>j. 0 + scale * standard_normal rng j) [0..<n]))"

definition SimulateBurst ::
  "random_source \<Rightarrow> ndarray \<Rightarrow> ndarray \<Rightarrow> real \<Rightarrow> real \<Rightarrow> real \<Rightarrow> real \<Rightarrow> real \<Rightarrow> ndarray \<Rightarrow> real
     \<Rightarrow> py_error + ndarray" where
  "SimulateBurst rng phantom distMag peak pPB yiel dArea mu tp dTRes =
     (case expected_counts phantom distMag peak pPB yiel dArea mu of
        Inl e \<Rightarrow> Inl e
      | Inr mean \<Rightarrow>
          (case detected_counts rng mean of
             Inl e \<Rightarrow> Inl e
           | Inr k \<Rightarrow>
               let yTOF = map (\<lambda>d. d / 300000000) distMag
               in (case np_add yTOF tp of
                     Inl e \<Rightarrow> Inl e
                   | Inr baseTime \<Rightarrow>
                       (case np_repeat baseTime k of
                          Inl e \<Rightarrow> Inl e
                        | Inr measuredTime \<Rightarrow>
                            (case np_random_normal rng dTRes (length measuredTime) of
                               Inl e \<Rightarrow> Inl e
                             | Inr timingJitter \<Rightarrow> np_iadd measuredTime timingJitter)))))"

section \<open>Reconstruction.py\<close>

text \<open>
  Line 27: the histogram of the timestamps over the edges
  \<open>arange(min, max + tBinWidth, tBinWidth)\<close>.
\<close>

definition time_histogram :: "ndarray \<Rightarrow> real \<Rightarrow> py_error + (int list \<times> ndarray)" where
  "time_histogram detectorData tBinWidth =
     (case np_min detectorData of
        Inl e \<Rightarrow> Inl e
      | Inr lo \<Rightarrow>
          (case np_max detectorData of
             Inl e \<Rightarrow> Inl e
           | Inr hi \<Rightarrow>
               (case np_arange lo (hi + tBinWidth) tBinWidth of
                  Inl e \<Rightarrow> Inl e
                | Inr bins \<Rightarrow> np_histogram detectorData bins)))"

text \<open>Line 28: \<open>(tBinEdges[:-1] + tBinEdges[1:]) / 2\<close>.\<close>

definition bin_centres :: "ndarray \<Rightarrow> ndarray" where
  "bin_centres tBinEdges = map (\<lambda>(a, b). (a + b) / 2) (zip (butlast tBinEdges) (tl tBinEdges))"

text \<open>
  Lines 38 to 43, for one time bin: the Gaussian weight of every depth bin, then the
  weights divided by their sum. The first division is by \<open>2 * sigma**2\<close>. The second is by
  the sum of the weights, which is zero only when there is no depth bin, and then nothing
  is divided.
\<close>

definition gaussian :: "real \<Rightarrow> ndarray \<Rightarrow> real \<Rightarrow> ndarray" where
  "gaussian sigma tExpected tBin =
     map (\<lambda>tDiff. exp ((- (tDiff\<^sup>2)) / (2 * sigma\<^sup>2))) (map (\<lambda>t. \<bar>t - tBin\<bar>) tExpected)"

definition normalised_weights :: "real \<Rightarrow> ndarray \<Rightarrow> real \<Rightarrow> py_error + ndarray" where
  "normalised_weights sigma tExpected tBin =
     (if sigma = 0 \<and> tExpected \<noteq> [] then Inl FloatingPoint
      else let weights = gaussian sigma tExpected tBin
           in Inr (map (\<lambda>w. w / sum_list weights) weights))"

text \<open>Lines 34 to 45: the loop over the time bins, with the accumulator passed along.\<close>

fun back_projection :: "real \<Rightarrow> ndarray \<Rightarrow> (real \<times> int) list \<Rightarrow> ndarray \<Rightarrow> py_error + ndarray"
  where
  "back_projection sigma tExpected [] reconstructed = Inr reconstructed"
| "back_projection sigma tExpected ((tBin, count) # bins) reconstructed =
     (if count = 0 then back_projection sigma tExpected bins reconstructed
      else
        (case normalised_weights sigma tExpected tBin of
           Inl e \<Rightarrow> Inl e
         | Inr weights \<Rightarrow>
             (case np_iadd reconstructed (map (\<lambda>w. real_of_int count * w) weights) of
                Inl e \<Rightarrow> Inl e
              | Inr reconstructed' \<Rightarrow> back_projection sigma tExpected bins reconstructed')))"

text \<open>Lines 23 to 45: the accumulated profile, before the correction.\<close>

definition reconstructed_profile ::
  "ndarray \<Rightarrow> ndarray \<Rightarrow> ndarray \<Rightarrow> ndarray \<Rightarrow> real \<Rightarrow> real \<Rightarrow> py_error + ndarray" where
  "reconstructed_profile phantom detectorData tp gammaTOF tBinWidth sigma =
     (case np_add tp gammaTOF of
        Inl e \<Rightarrow> Inl e
      | Inr tExpected \<Rightarrow>
          (case time_histogram detectorData tBinWidth of
             Inl e \<Rightarrow> Inl e
           | Inr (tCounts, tBinEdges) \<Rightarrow>
               back_projection sigma tExpected (zip (bin_centres tBinEdges) tCounts)
                 (replicate (length phantom) 0)))"

text \<open>
  Lines 50 and 51: the accumulated profile divided by \<open>sensitivity * aFactor\<close>.
  \<open>aFactor\<close> is an array; the default \<open>1\<close> is \<open>[1]\<close>.
\<close>

definition correction :: "ndarray \<Rightarrow> real \<Rightarrow> ndarray \<Rightarrow> ndarray \<Rightarrow> py_error + ndarray" where
  "correction reconstructed dArea distMag aFactor =
     (case sensitivity dArea distMag of
        Inl e \<Rightarrow> Inl e
      | Inr sens \<Rightarrow>
          (case np_multiply sens aFactor of
             Inl e \<Rightarrow> Inl e
           | Inr denominator \<Rightarrow> np_divide reconstructed denominator))"

text \<open>The whole function.\<close>

definition Reconstruction ::
  "ndarray \<Rightarrow> ndarray \<Rightarrow> ndarray \<Rightarrow> ndarray \<Rightarrow> real \<Rightarrow> real \<Rightarrow> real \<Rightarrow> ndarray \<Rightarrow> ndarray
     \<Rightarrow> py_error + ndarray" where
  "Reconstruction phantom detectorData tp gammaTOF tBinWidth sigma dArea distMag aFactor =
     (case reconstructed_profile phantom detectorData tp gammaTOF tBinWidth sigma of
        Inl e \<Rightarrow> Inl e
      | Inr reconstructed \<Rightarrow> correction reconstructed dArea distMag aFactor)"

section \<open>The weights of a time bin\<close>

lemma sum_list_pos_real: "xs \<noteq> [] \<Longrightarrow> (\<And>x. x \<in> set xs \<Longrightarrow> 0 < x) \<Longrightarrow> 0 < sum_list (xs :: real list)"
  by (induction xs) (auto simp: add_pos_nonneg sum_list_nonneg less_imp_le)

lemma sum_list_divide_self: "sum_list ws \<noteq> 0 \<Longrightarrow> sum_list (map (\<lambda>w. w / sum_list ws) ws) = (1 :: real)"
proof -
  assume nz: "sum_list ws \<noteq> 0"
  have "sum_list (map (\<lambda>w. w / c) ws) = sum_list ws / c" for c :: real
    by (induction ws) (simp_all add: add_divide_distrib)
  then show ?thesis using nz by simp
qed

lemma length_gaussian: "length (gaussian sigma tExpected tBin) = length tExpected"
  by (simp add: gaussian_def)

lemma gaussian_sum_pos: "tExpected \<noteq> [] \<Longrightarrow> 0 < sum_list (gaussian sigma tExpected tBin)"
  by (rule sum_list_pos_real) (auto simp: gaussian_def)

lemma normalised_weights_Inr:
  assumes "sigma \<noteq> 0" and "tExpected \<noteq> []"
  shows "\<exists>weights. normalised_weights sigma tExpected tBin = Inr weights
           \<and> length weights = length tExpected \<and> sum_list weights = 1"
proof -
  have "sum_list (gaussian sigma tExpected tBin) \<noteq> 0"
    using gaussian_sum_pos [OF assms(2), of sigma tBin] by simp
  then show ?thesis
    using assms(1) by (simp add: normalised_weights_def Let_def sum_list_divide_self length_gaussian)
qed

text \<open>
  C3. For a positive \<open>sigma\<close> and a depth axis with at least one bin, the weights that the
  loop computes for a time bin exist (no division by zero) and sum to exactly 1.
\<close>

theorem weights_sum_to_one:
  assumes "0 < sigma" and "tExpected \<noteq> []"
  shows "\<exists>weights. normalised_weights sigma tExpected tBin = Inr weights
           \<and> length weights = length tExpected \<and> sum_list weights = 1"
  using assms normalised_weights_Inr [of sigma tExpected tBin] by simp

theorem weights_sum_to_one_witness:
  "(0 :: real) < 1 \<and> [0, 2 :: real] \<noteq> []
   \<and> (\<exists>weights. normalised_weights 1 [0, 2] 1 = Inr weights
         \<and> length weights = length [0, 2 :: real] \<and> sum_list weights = 1)"
  using weights_sum_to_one [of 1 "[0, 2]" 1] by simp

section \<open>Reconstruction without counts, and without timestamps\<close>

lemma back_projection_all_zero:
  "\<forall>b\<in>set bins. snd b = 0 \<Longrightarrow> back_projection sigma tExpected bins reconstructed = Inr reconstructed"
  by (induction bins arbitrary: reconstructed) auto

lemma np_broadcast_same: "length xs = length ys \<Longrightarrow> np_broadcast xs ys = Inr (zip xs ys)"
  by (simp add: np_broadcast_def)

lemma np_add_same: "length xs = length ys \<Longrightarrow> np_add xs ys = Inr (map (\<lambda>(x, y). x + y) (zip xs ys))"
  by (simp add: np_add_def np_broadcast_same)

lemma sensitivity_Inr:
  "\<forall>d\<in>set distMag. d \<noteq> 0 \<Longrightarrow>
   sensitivity dArea distMag = Inr (map (\<lambda>d. dArea / (4 * pi * (d / 1000)\<^sup>2)) distMag)"
  by (simp add: sensitivity_def list_ex_iff)

lemma np_divide_zeros:
  assumes "length den = n" and "\<forall>y\<in>set den. y \<noteq> 0"
  shows "np_divide (replicate n 0) den = Inr (replicate n 0)"
proof -
  have "\<not> list_ex (\<lambda>(x, y). y = 0) (zip (replicate n 0) den)"
    using assms(2) by (auto simp: list_ex_iff dest: set_zip_rightD)
  moreover have "map (\<lambda>(x, y). x / y) (zip (replicate n 0) den) = replicate n (0 :: real)"
    using assms(1) by (auto intro!: nth_equalityI)
  ultimately show ?thesis
    using assms(1) by (simp add: np_divide_def np_broadcast_same)
qed

lemma np_multiply_nonzero:
  assumes "length ys = length xs \<or> length ys = 1"
    and "\<forall>x\<in>set xs. x \<noteq> 0" and "\<forall>y\<in>set ys. y \<noteq> 0"
  shows "\<exists>zs. np_multiply xs ys = Inr zs \<and> length zs = length xs \<and> (\<forall>z\<in>set zs. z \<noteq> 0)"
proof (cases "length xs = length ys")
  case True
  have "\<forall>z\<in>set (map (\<lambda>(x, y). x * y) (zip xs ys)). z \<noteq> 0"
  proof
    fix z assume "z \<in> set (map (\<lambda>(x, y). x * y) (zip xs ys))"
    then obtain x y where xy: "(x, y) \<in> set (zip xs ys)" and z: "z = x * y" by auto
    from xy have "x \<in> set xs" and "y \<in> set ys" by (auto dest: set_zip_leftD set_zip_rightD)
    with assms(2,3) show "z \<noteq> 0" unfolding z by simp
  qed
  then show ?thesis using True by (simp add: np_multiply_def np_broadcast_same)
next
  case False
  with assms(1) have one: "length ys = 1" by auto
  then have "hd ys \<in> set ys" by (cases ys) simp_all
  then have "hd ys \<noteq> 0" using assms(3) by simp
  then have "\<forall>z\<in>set (map (\<lambda>x. x * hd ys) xs). z \<noteq> 0" using assms(2) by auto
  moreover have "np_multiply xs ys = Inr (map (\<lambda>x. x * hd ys) xs)"
    using False one by (simp add: np_multiply_def np_broadcast_def comp_def)
  ultimately show ?thesis by simp
qed

lemma sensitivity_nonzero:
  assumes "dArea \<noteq> 0" and "\<forall>d\<in>set distMag. d \<noteq> 0"
  shows "\<exists>sens. sensitivity dArea distMag = Inr sens \<and> length sens = length distMag
           \<and> (\<forall>s\<in>set sens. s \<noteq> 0)"
  using assms by (auto simp: sensitivity_Inr)

lemma correction_of_zeros:
  assumes "length distMag = n" and "length aFactor = n \<or> length aFactor = 1"
    and "dArea \<noteq> 0" and "\<forall>d\<in>set distMag. d \<noteq> 0" and "\<forall>a\<in>set aFactor. a \<noteq> 0"
  shows "correction (replicate n 0) dArea distMag aFactor = Inr (replicate n 0)"
proof -
  obtain sens where s: "sensitivity dArea distMag = Inr sens"
    and ls: "length sens = length distMag" and s0: "\<forall>s\<in>set sens. s \<noteq> 0"
    using sensitivity_nonzero [OF assms(3,4)] by blast
  have "length aFactor = length sens \<or> length aFactor = 1" using assms(1,2) ls by simp
  from np_multiply_nonzero [OF this s0 assms(5)] obtain den where
    m: "np_multiply sens aFactor = Inr den" and ld: "length den = length sens"
    and d0: "\<forall>z\<in>set den. z \<noteq> 0" by blast
  have "length den = n" using ld ls assms(1) by simp
  then have d: "np_divide (replicate n 0) den = Inr (replicate n 0)"
    using d0 by (rule np_divide_zeros)
  show ?thesis unfolding correction_def by (simp only: s m d sum.case)
qed

text \<open>
  C8. Whatever histogram line 27 hands to the loop, with any number of bins: when every
  count in it is zero, the loop skips every bin and leaves the accumulator at zero. It
  computes no weight on the way, so this holds for every \<open>sigma\<close>, also \<open>sigma = 0\<close>, and
  for expected times of any length, where a loop without the skip would divide by zero or
  fail to broadcast. For a detector area, distances and attenuation factors that are not
  zero the correction then divides zeros by non-zero numbers, so the profile returned is
  zero at every depth bin and no division by zero occurs. The attenuation factor is an
  array as long as the depth axis or a scalar, as the default \<open>1\<close> is. The last part is
  the same for the function as a whole, when the histogram of its timestamps is such a one.
\<close>

theorem empty_bins_zero_profile:
  assumes "\<forall>count\<in>set tCounts. count = 0"
    and "length distMag = length phantom"
    and "length aFactor = length phantom \<or> length aFactor = 1"
    and "dArea \<noteq> 0" and "\<forall>d\<in>set distMag. d \<noteq> 0" and "\<forall>a\<in>set aFactor. a \<noteq> 0"
  shows "back_projection sigma tExpected (zip (bin_centres tBinEdges) tCounts)
           (replicate (length phantom) 0) = Inr (replicate (length phantom) 0)
         \<and> correction (replicate (length phantom) 0) dArea distMag aFactor
             = Inr (replicate (length phantom) 0)
         \<and> (np_add tp gammaTOF = Inr tExpected
              \<and> time_histogram detectorData tBinWidth = Inr (tCounts, tBinEdges)
            \<longrightarrow> Reconstruction phantom detectorData tp gammaTOF tBinWidth sigma dArea distMag
                  aFactor = Inr (replicate (length phantom) 0))"
proof -
  have "\<forall>b\<in>set (zip (bin_centres tBinEdges) tCounts). snd b = 0"
    using assms(1) by (auto dest: set_zip_rightD)
  then have loop: "back_projection sigma tExpected (zip (bin_centres tBinEdges) tCounts)
      (replicate (length phantom) 0) = Inr (replicate (length phantom) 0)"
    by (rule back_projection_all_zero)
  have corr: "correction (replicate (length phantom) 0) dArea distMag aFactor
      = Inr (replicate (length phantom) 0)"
    using assms(2,3,4,5,6) by (rule correction_of_zeros)
  have "Reconstruction phantom detectorData tp gammaTOF tBinWidth sigma dArea distMag aFactor
      = Inr (replicate (length phantom) 0)"
    if "np_add tp gammaTOF = Inr tExpected"
      and "time_histogram detectorData tBinWidth = Inr (tCounts, tBinEdges)"
    using that loop corr by (simp add: Reconstruction_def reconstructed_profile_def)
  with loop corr show ?thesis by blast
qed

text \<open>
  Two instances: a histogram of two bins without counts, handed to the loop with
  \<open>sigma = 0\<close> and three expected times for two depth bins; and the function on a single
  timestamp, whose histogram has no bin.
\<close>

theorem empty_bins_zero_profile_witness:
  "back_projection 0 [7, 8, 9] (zip (bin_centres [0, 1, 2]) [0, 0]) (replicate (length [0, 1 :: real]) 0)
     = Inr [0, 0]
   \<and> correction [0, 0] 1 [1, 1] [1] = Inr [0, 0]
   \<and> np_add [0, 0] [0, 0] = Inr [0, 0]
   \<and> time_histogram [5] 1 = Inr ([], [5])
   \<and> Reconstruction [0, 1] [5] [0, 0] [0, 0] 1 1 1 [1, 1] [1] = Inr [0, 0]"
proof -
  have h: "time_histogram [5] 1 = Inr ([], [5])"
    by (simp add: time_histogram_def np_min_def np_max_def np_arange_def np_histogram_def
        search_sorted_inclusive_def np_diff_def)
  have a: "np_add [0, 0] [0, 0] = Inr [0, 0]"
    by (simp add: np_add_def np_broadcast_def)
  show ?thesis
    using h a
      empty_bins_zero_profile [of "[0, 0]" "[1, 1]" "[0, 1]" "[1]" 1 0 "[7, 8, 9]" "[0, 1, 2]"]
      empty_bins_zero_profile [of "[]" "[1, 1]" "[0, 1]" "[1]" 1 1 "[0, 0]" "[5]" "[0, 0]"
        "[0, 0]" "[5]" 1]
    by (simp add: numeral_2_eq_2)
qed

text \<open>
  C2, as amended. The source has no guard for an empty timestamp array. The call fails
  all the same, before any histogram is built: with the \<open>ValueError\<close> that NumPy's
  \<open>min\<close> raises on a zero-size array, or earlier with NumPy's broadcast error when \<open>tp\<close>
  and \<open>gammaTOF\<close> do not fit.
\<close>

theorem empty_timestamps_raise:
  "Reconstruction phantom [] tp gammaTOF tBinWidth sigma dArea distMag aFactor =
     Inl (ValueError
       (if length tp = length gammaTOF \<or> length tp = 1 \<or> length gammaTOF = 1
        then ZeroSizeReduction else BroadcastMismatch))"
  by (simp add: Reconstruction_def reconstructed_profile_def time_histogram_def np_min_def
      np_add_def np_broadcast_def)

text \<open>
  C2, the counterexample: the failure on the empty array is the exception of the
  reduction, passed on as it is.
\<close>

theorem empty_timestamps_counterexample:
  "Reconstruction [0, 1] [] [0, 0] [0, 0] 1 1 1 [1, 1] [1, 1] = Inl (ValueError ZeroSizeReduction)"
  by (simp add: Reconstruction_def reconstructed_profile_def time_histogram_def np_min_def
      np_add_def np_broadcast_def)


section \<open>The histogram of the timestamps and the conservation of counts\<close>

lemma np_diff_Cons2: "np_diff (x # y # ys) = (y - x) # np_diff (y # ys)"
  by (simp add: np_diff_def)

lemma sum_list_np_diff: "xs \<noteq> [] \<Longrightarrow> sum_list (np_diff xs) = last xs - hd (xs :: int list)"
proof (induction xs)
  case Nil
  then show ?case by simp
next
  case (Cons x xs)
  show ?case
  proof (cases xs)
    case Nil
    then show ?thesis by (simp add: np_diff_def)
  next
    case (Cons y ys)
    with Cons.IH show ?thesis by (simp add: np_diff_Cons2)
  qed
qed

lemma length_np_diff: "length (np_diff xs) = length xs - 1"
  by (simp add: np_diff_def)

lemma length_search_sorted_inclusive: "length (search_sorted_inclusive a v) = length v"
  by (cases v rule: rev_cases) (simp_all add: search_sorted_inclusive_def)

lemma length_bin_centres: "length (bin_centres edges) = length edges - 1"
  by (simp add: bin_centres_def)

lemma none_below_Min: "filter (\<lambda>x. x < Min (set a)) a = []"
  by (auto simp: filter_empty_conv not_less)

lemma all_up_to_Max: "Max (set a) \<le> e \<Longrightarrow> filter (\<lambda>x. x \<le> e) a = (a :: real list)"
  by (auto simp: filter_id_conv intro: order_trans [OF Max_ge])

lemma search_sorted_inclusive_ends:
  assumes "2 \<le> length v"
  shows "hd (search_sorted_inclusive a v) = int (length (filter (\<lambda>x. x < hd v) a))"
    and "last (search_sorted_inclusive a v) = int (length (filter (\<lambda>x. x \<le> last v) a))"
proof -
  obtain x y ys where v: "v = x # y # ys"
  proof (cases v)
    case Nil
    with assms show ?thesis by simp
  next
    case (Cons x v')
    with assms that show ?thesis by (cases v') simp_all
  qed
  show "hd (search_sorted_inclusive a v) = int (length (filter (\<lambda>x. x < hd v) a))"
    by (simp add: search_sorted_inclusive_def v)
  show "last (search_sorted_inclusive a v) = int (length (filter (\<lambda>x. x \<le> last v) a))"
    by (simp add: search_sorted_inclusive_def v)
qed

text \<open>The edges that line 27 builds, for a positive width and a sample that is not constant.\<close>

lemma edges_cover:
  fixes lo hi w :: real
  assumes "0 < w" and "lo < hi" and "n = nat \<lceil>(hi + w - lo) / w\<rceil>"
  shows "2 \<le> n" and "hi \<le> lo + real (n - 1) * w"
proof -
  define q where "q = (hi + w - lo) / w"
  have "1 < q" using assms(1,2) by (simp add: q_def)
  then have c: "1 < \<lceil>q\<rceil>" by (simp add: less_ceiling_iff)
  have n: "int n = \<lceil>q\<rceil>" using c by (simp add: assms(3) q_def)
  show n2: "2 \<le> n" using c n by linarith
  have "q \<le> real_of_int \<lceil>q\<rceil>" by (rule le_of_int_ceiling)
  also have "\<dots> = real n" using n by (metis of_int_of_nat_eq)
  finally have "q \<le> real n" .
  then have "hi + w - lo \<le> real n * w" using assms(1) by (simp add: q_def pos_divide_le_eq)
  then have "hi \<le> lo + (real n - 1) * w" by (simp add: left_diff_distrib)
  moreover have "real (n - 1) = real n - 1" using n2 by (simp add: of_nat_diff)
  ultimately show "hi \<le> lo + real (n - 1) * w" by (simp only:)
qed

lemma sorted_edges:
  assumes "0 < w"
  shows "sorted (map (\<lambda>i. lo + real i * w) [0..<n])"
proof (unfold sorted_iff_nth_mono, intro allI impI)
  fix i j
  assume "i \<le> j" and "j < length (map (\<lambda>i. lo + real i * w) [0..<n])"
  then show "map (\<lambda>i. lo + real i * w) [0..<n] ! i \<le> map (\<lambda>i. lo + real i * w) [0..<n] ! j"
    using assms by (simp add: mult_right_mono)
qed

lemma edges_ends:
  assumes "2 \<le> n"
  shows "hd (map (\<lambda>i. lo + real i * w) [0..<n]) = lo"
    and "last (map (\<lambda>i. lo + real i * w) [0..<n]) = lo + real (n - 1) * w"
proof -
  have ne: "map (\<lambda>i. lo + real i * w) [0..<n] \<noteq> []" using assms by auto
  show "hd (map (\<lambda>i. lo + real i * w) [0..<n]) = lo"
    using assms by (simp add: hd_conv_nth [OF ne])
  show "last (map (\<lambda>i. lo + real i * w) [0..<n]) = lo + real (n - 1) * w"
    using assms by (simp add: last_conv_nth [OF ne])
qed

lemma count_between:
  "(\<And>x. P x \<Longrightarrow> Q x) \<Longrightarrow>
   int (length (filter Q a)) - int (length (filter P a)) = int (length (filter (\<lambda>x. \<not> P x \<and> Q x) a))"
  by (induction a) auto

lemma nth_np_diff: "Suc i < length xs \<Longrightarrow> np_diff xs ! i = xs ! Suc i - xs ! i"
  by (simp add: np_diff_def nth_tl)

lemma nth_search_sorted_inclusive:
  assumes "j < length v"
  shows "search_sorted_inclusive a v ! j =
         (if Suc j = length v then int (length (filter (\<lambda>x. x \<le> v ! j) a))
          else int (length (filter (\<lambda>x. x < v ! j) a)))"
proof (cases "Suc j = length v")
  case True
  then have vne: "v \<noteq> []" by auto
  have "j = length (map (\<lambda>e. int (length (filter (\<lambda>x. x < e) a))) (butlast v))"
    using True by simp
  then have "search_sorted_inclusive a v ! j = int (length (filter (\<lambda>x. x \<le> last v) a))"
    using vne by (simp add: search_sorted_inclusive_def nth_append)
  moreover have "length v - 1 = j" using True by linarith
  then have "last v = v ! j" using last_conv_nth [OF vne] by simp
  ultimately show ?thesis using True by simp
next
  case False
  with assms have "j < length (butlast v)" by simp
  then show ?thesis using False by (simp add: search_sorted_inclusive_def nth_append nth_butlast)
qed

lemma histogram_count:
  assumes "sorted v" and "Suc i < length v"
  shows "np_diff (search_sorted_inclusive a v) ! i = int (length (filter (in_bin v i) a))"
proof -
  have le: "v ! i \<le> v ! Suc i" using assms by (simp add: sorted_iff_nth_mono)
  have d: "np_diff (search_sorted_inclusive a v) ! i
           = search_sorted_inclusive a v ! Suc i - search_sorted_inclusive a v ! i"
    using assms(2) by (simp add: nth_np_diff length_search_sorted_inclusive)
  have lo: "search_sorted_inclusive a v ! i = int (length (filter (\<lambda>x. x < v ! i) a))"
    using assms(2) by (simp add: nth_search_sorted_inclusive)
  show ?thesis
  proof (cases "Suc (Suc i) = length v")
    case True
    have "search_sorted_inclusive a v ! Suc i = int (length (filter (\<lambda>x. x \<le> v ! Suc i) a))"
      using assms(2) True by (simp add: nth_search_sorted_inclusive)
    with d lo have "np_diff (search_sorted_inclusive a v) ! i
        = int (length (filter (\<lambda>x. \<not> x < v ! i \<and> x \<le> v ! Suc i) a))"
      using count_between [of "\<lambda>x. x < v ! i" "\<lambda>x. x \<le> v ! Suc i" a] le by simp
    moreover have "(\<lambda>x. \<not> x < v ! i \<and> x \<le> v ! Suc i) = in_bin v i"
      using True by (auto simp: in_bin_def fun_eq_iff)
    ultimately show ?thesis by simp
  next
    case False
    have "search_sorted_inclusive a v ! Suc i = int (length (filter (\<lambda>x. x < v ! Suc i) a))"
      using assms(2) False by (simp add: nth_search_sorted_inclusive)
    with d lo have "np_diff (search_sorted_inclusive a v) ! i
        = int (length (filter (\<lambda>x. \<not> x < v ! i \<and> x < v ! Suc i) a))"
      using count_between [of "\<lambda>x. x < v ! i" "\<lambda>x. x < v ! Suc i" a] le by simp
    moreover have "(\<lambda>x. \<not> x < v ! i \<and> x < v ! Suc i) = in_bin v i"
      using False by (auto simp: in_bin_def fun_eq_iff)
    ultimately show ?thesis by simp
  qed
qed

lemma exactly_one_bin:
  assumes "sorted v" and "2 \<le> length v" and "v ! 0 \<le> x" and "x \<le> v ! (length v - 1)"
  shows "\<exists>!i. Suc i < length v \<and> in_bin v i x"
proof -
  define S where "S = {j. j < length v \<and> v ! j \<le> x}"
  have fin: "finite S" by (simp add: S_def)
  have "0 < length v" using assms(2) by linarith
  then have "0 \<in> S" using assms(3) by (simp add: S_def)
  then have ne: "S \<noteq> {}" by auto
  define j where "j = Max S"
  have jS: "j \<in> S" unfolding j_def using fin ne by (rule Max_in)
  then have jl: "j < length v" and jx: "v ! j \<le> x" by (simp_all add: S_def)
  have ex: "\<exists>i. Suc i < length v \<and> in_bin v i x"
  proof (cases "Suc j = length v")
    case True
    then have "length v - 1 = j" by linarith
    then have "v ! j = v ! (length v - 1)" by simp
    with jx assms(4) have xe: "x = v ! j" by simp
    obtain i where i: "j = Suc i" using True assms(2) by (cases j) auto
    have "v ! i \<le> v ! j" using assms(1) jl i by (simp add: sorted_iff_nth_mono)
    then have "in_bin v i x" using xe i True by (simp add: in_bin_def)
    then show ?thesis using i jl by auto
  next
    case False
    with jl have sj: "Suc j < length v" by simp
    have "Suc j \<notin> S"
    proof
      assume "Suc j \<in> S"
      then have "Suc j \<le> Max S" using fin by (simp add: Max_ge)
      then show False by (simp add: j_def)
    qed
    then have "x < v ! Suc j" using sj by (simp add: S_def not_le)
    then have "in_bin v j x" using jx by (simp add: in_bin_def)
    then show ?thesis using sj by auto
  qed
  have uniq: "i = i'" if a: "Suc i < length v" "in_bin v i x" and b: "Suc i' < length v" "in_bin v i' x"
    for i i'
  proof (rule ccontr)
    assume "i \<noteq> i'"
    then consider "i < i'" | "i' < i" by linarith
    then show False
    proof cases
      case 1
      then have "Suc (Suc i) \<noteq> length v" using b(1) by simp
      then have "x < v ! Suc i" using a(2) by (simp add: in_bin_def)
      moreover have "v ! Suc i \<le> v ! i'" using assms(1) 1 b(1) by (simp add: sorted_iff_nth_mono)
      moreover have "v ! i' \<le> x" using b(2) by (simp add: in_bin_def)
      ultimately show False by linarith
    next
      case 2
      then have "Suc (Suc i') \<noteq> length v" using a(1) by simp
      then have "x < v ! Suc i'" using b(2) by (simp add: in_bin_def)
      moreover have "v ! Suc i' \<le> v ! i" using assms(1) 2 a(1) by (simp add: sorted_iff_nth_mono)
      moreover have "v ! i \<le> x" using a(2) by (simp add: in_bin_def)
      ultimately show False by linarith
    qed
  qed
  from ex uniq show ?thesis by blast
qed

lemma time_histogram_conserves:
  assumes "0 < tBinWidth" and "x \<in> set detectorData" and "y \<in> set detectorData" and "x < y"
  shows "\<exists>tCounts tBinEdges. time_histogram detectorData tBinWidth = Inr (tCounts, tBinEdges)
           \<and> length tCounts = length tBinEdges - 1
           \<and> sum_list tCounts = int (length detectorData)
           \<and> (\<forall>i<length tCounts.
                 tCounts ! i = int (length (filter (in_bin tBinEdges i) detectorData)))
           \<and> (\<forall>t\<in>set detectorData. \<exists>!i. i < length tCounts \<and> in_bin tBinEdges i t)"
proof -
  define lo where "lo = Min (set detectorData)"
  define hi where "hi = Max (set detectorData)"
  define n where "n = nat \<lceil>(hi + tBinWidth - lo) / tBinWidth\<rceil>"
  define edges where "edges = map (\<lambda>i. lo + real i * tBinWidth) [0..<n]"
  define cum where "cum = search_sorted_inclusive detectorData edges"
  have ne: "detectorData \<noteq> []" using assms(2) by auto
  have "lo \<le> x" and "y \<le> hi" using assms(2,3) by (simp_all add: lo_def hi_def)
  then have lohi: "lo < hi" using assms(4) by linarith
  have n2: "2 \<le> n" and cover: "hi \<le> lo + real (n - 1) * tBinWidth"
    using edges_cover [OF assms(1) lohi n_def] by simp_all
  have len: "length edges = n" by (simp add: edges_def)
  have e_ne: "edges \<noteq> []" using n2 len by auto
  have hd_e: "hd edges = lo" and last_e: "last edges = lo + real (n - 1) * tBinWidth"
    unfolding edges_def using edges_ends [OF n2] by simp_all
  have ar: "np_arange lo (hi + tBinWidth) tBinWidth = Inr edges"
    using assms(1) by (simp add: np_arange_def edges_def n_def)
  have hist: "np_histogram detectorData edges = Inr (np_diff cum, edges)"
    using sorted_edges [OF assms(1), of lo n] by (simp add: np_histogram_def edges_def cum_def)
  have th: "time_histogram detectorData tBinWidth = Inr (np_diff cum, edges)"
    using ne ar hist by (simp add: time_histogram_def np_min_def np_max_def lo_def hi_def)
  have cum_ne: "cum \<noteq> []"
    using n2 len length_search_sorted_inclusive [of detectorData edges] by (auto simp: cum_def)
  have "sum_list (np_diff cum) = last cum - hd cum"
    using cum_ne by (rule sum_list_np_diff)
  also have "\<dots> = int (length (filter (\<lambda>x. x \<le> last edges) detectorData))
                  - int (length (filter (\<lambda>x. x < hd edges) detectorData))"
    using search_sorted_inclusive_ends [of edges detectorData] n2 len by (simp add: cum_def)
  also have "\<dots> = int (length detectorData)"
    unfolding hd_e last_e
    using all_up_to_Max [of detectorData "lo + real (n - 1) * tBinWidth"] cover
      none_below_Min [of detectorData]
    by (simp add: lo_def hi_def)
  finally have total: "sum_list (np_diff cum) = int (length detectorData)" .
  have lc: "length (np_diff cum) = length edges - 1"
    by (simp add: length_np_diff length_search_sorted_inclusive cum_def)
  have srt: "sorted edges" unfolding edges_def using assms(1) by (rule sorted_edges)
  have each: "\<forall>i<length (np_diff cum).
      np_diff cum ! i = int (length (filter (in_bin edges i) detectorData))"
    using srt lc by (simp add: cum_def histogram_count)
  have one: "\<forall>t\<in>set detectorData. \<exists>!i. i < length (np_diff cum) \<and> in_bin edges i t"
  proof
    fix t assume t: "t \<in> set detectorData"
    have "edges ! 0 = lo" using hd_e e_ne by (simp add: hd_conv_nth)
    then have a: "edges ! 0 \<le> t" using t by (simp add: lo_def)
    have "edges ! (length edges - 1) = lo + real (n - 1) * tBinWidth"
      using last_e e_ne by (simp add: last_conv_nth)
    moreover have "t \<le> hi" using t by (simp add: hi_def)
    ultimately have b: "t \<le> edges ! (length edges - 1)" using cover by linarith
    have "2 \<le> length edges" using n2 len by simp
    from exactly_one_bin [OF srt this a b] have "\<exists>!i. Suc i < length edges \<and> in_bin edges i t" .
    moreover have "Suc i < length edges \<longleftrightarrow> i < length (np_diff cum)" for i
      using lc by auto
    ultimately show "\<exists>!i. i < length (np_diff cum) \<and> in_bin edges i t" by simp
  qed
  from th total lc each one show ?thesis by blast
qed


text \<open>
  On the histogram that the function builds from its own timestamps the counts are all
  zero only when there is no bin at all: as soon as there is a bin, the smallest timestamp
  is counted in one.
\<close>

lemma time_histogram_Inr:
  assumes "time_histogram detectorData tBinWidth = Inr (tCounts, tBinEdges)"
  shows "detectorData \<noteq> []" and "tBinWidth \<noteq> 0"
    and "length tCounts
         = nat \<lceil>(Max (set detectorData) + tBinWidth - Min (set detectorData)) / tBinWidth\<rceil> - 1"
  using assms
  by (auto simp: time_histogram_def np_min_def np_max_def np_arange_def np_histogram_def
      length_np_diff length_search_sorted_inclusive split: if_splits)

lemma sum_list_all_zero: "\<forall>c\<in>set cs. c = 0 \<Longrightarrow> sum_list cs = (0 :: int)"
  by (induction cs) simp_all

lemma zero_counts_only_without_bins:
  assumes "time_histogram detectorData tBinWidth = Inr (tCounts, tBinEdges)"
    and "\<forall>count\<in>set tCounts. count = 0"
  shows "tCounts = []"
proof -
  define lo where "lo = Min (set detectorData)"
  define hi where "hi = Max (set detectorData)"
  have ne: "detectorData \<noteq> []" and w0: "tBinWidth \<noteq> 0"
    and len: "length tCounts = nat \<lceil>(hi + tBinWidth - lo) / tBinWidth\<rceil> - 1"
    using time_histogram_Inr [OF assms(1)] by (simp_all add: lo_def hi_def)
  have lo_in: "lo \<in> set detectorData" and hi_in: "hi \<in> set detectorData"
    using ne by (simp_all add: lo_def hi_def)
  have lohi: "lo \<le> hi" using ne by (simp add: lo_def hi_def)
  show ?thesis
  proof (cases "lo < hi \<and> 0 < tBinWidth")
    case True
    then obtain tCounts' tBinEdges' where
      "time_histogram detectorData tBinWidth = Inr (tCounts', tBinEdges')"
      "sum_list tCounts' = int (length detectorData)"
      using time_histogram_conserves [of tBinWidth lo detectorData hi] lo_in hi_in by blast
    with assms(1) have "sum_list tCounts = int (length detectorData)" by simp
    moreover have "sum_list tCounts = 0" using assms(2) by (rule sum_list_all_zero)
    ultimately show ?thesis using ne by simp
  next
    case False
    have "(hi + tBinWidth - lo) / tBinWidth \<le> 1"
    proof (cases "0 < tBinWidth")
      case True
      with False lohi have "hi = lo" by simp
      then show ?thesis using True by simp
    next
      case False
      with w0 have neg: "tBinWidth < 0" by simp
      have "(hi + tBinWidth - lo) / tBinWidth = (hi - lo) / tBinWidth + 1"
        using w0 by (simp add: field_simps)
      moreover have "(hi - lo) / tBinWidth \<le> 0"
        using lohi neg by (simp add: divide_nonneg_neg)
      ultimately show ?thesis by simp
    qed
    then have "\<lceil>(hi + tBinWidth - lo) / tBinWidth\<rceil> \<le> 1" by (simp add: ceiling_le_iff)
    then have "length tCounts = 0" using len by simp
    then show ?thesis by simp
  qed
qed

text \<open>
  And that is the case of timestamps that are all equal: the range of line 27 is the one
  edge, the histogram has no bin and the loop has nothing to add.
\<close>

lemma constant_timestamps_no_bin:
  assumes "detectorData \<noteq> []" and "Min (set detectorData) = Max (set detectorData)"
    and "0 < tBinWidth" and "length tp = length gammaTOF"
  shows "time_histogram detectorData tBinWidth = Inr ([], [Min (set detectorData)])"
    and "reconstructed_profile phantom detectorData tp gammaTOF tBinWidth sigma
         = Inr (replicate (length phantom) 0)"
proof -
  define lo where "lo = Min (set detectorData)"
  have "(lo + tBinWidth - lo) / tBinWidth = 1" using assms(3) by simp
  then have "nat \<lceil>(lo + tBinWidth - lo) / tBinWidth\<rceil> = 1" by simp
  then have "np_arange lo (lo + tBinWidth) tBinWidth = Inr [lo]"
    using assms(3) by (simp add: np_arange_def)
  then show th: "time_histogram detectorData tBinWidth = Inr ([], [Min (set detectorData)])"
    using assms(1,2)
    by (simp add: time_histogram_def np_min_def np_max_def np_histogram_def
        search_sorted_inclusive_def np_diff_def lo_def)
  show "reconstructed_profile phantom detectorData tp gammaTOF tBinWidth sigma
         = Inr (replicate (length phantom) 0)"
    using th assms(4) by (simp add: reconstructed_profile_def np_add_same)
qed

lemma sum_list_add_zip:
  "length xs = length ys \<Longrightarrow>
   sum_list (map (\<lambda>(x, y). x + y) (zip xs ys)) = sum_list xs + sum_list (ys :: real list)"
  by (induction xs ys rule: list_induct2) simp_all

lemma np_iadd_same:
  "length ys = length xs \<Longrightarrow> np_iadd xs ys = Inr (map (\<lambda>(x, y). x + y) (zip xs ys))"
  by (simp add: np_iadd_def)

lemma back_projection_sum:
  assumes "sigma \<noteq> 0" and "tExpected \<noteq> []"
  shows "length reconstructed = length tExpected \<Longrightarrow>
         \<exists>r. back_projection sigma tExpected bins reconstructed = Inr r
           \<and> length r = length tExpected
           \<and> sum_list r = sum_list reconstructed + real_of_int (sum_list (map snd bins))"
proof (induction bins arbitrary: reconstructed)
  case Nil
  then show ?case by simp
next
  case (Cons b bins)
  obtain tBin count where b: "b = (tBin, count)" by (cases b)
  show ?case
  proof (cases "count = 0")
    case True
    with Cons b show ?thesis by simp
  next
    case False
    obtain weights where w: "normalised_weights sigma tExpected tBin = Inr weights"
      and lw: "length weights = length tExpected" and sw: "sum_list weights = 1"
      using normalised_weights_Inr [OF assms, of tBin] by blast
    let ?add = "map (\<lambda>w. real_of_int count * w) weights"
    let ?r = "map (\<lambda>(x, y). x + y) (zip reconstructed ?add)"
    have add: "np_iadd reconstructed ?add = Inr ?r"
      using lw Cons.prems by (simp add: np_iadd_same)
    have "sum_list ?add = real_of_int count"
      using sw by (simp add: sum_list_const_mult)
    then have sr: "sum_list ?r = sum_list reconstructed + real_of_int count"
      using lw Cons.prems by (simp add: sum_list_add_zip)
    have lr: "length ?r = length tExpected" using lw Cons.prems by simp
    from Cons.IH [OF lr] obtain r where
      "back_projection sigma tExpected bins ?r = Inr r" "length r = length tExpected"
      "sum_list r = sum_list ?r + real_of_int (sum_list (map snd bins))"
      by blast
    then show ?thesis using False b w add sr by simp
  qed
qed

text \<open>
  C10, as amended. For a positive bin width, a positive \<open>sigma\<close>, timestamps that are not
  all equal and a depth axis with at least one bin (with \<open>tp\<close> and \<open>gammaTOF\<close> of its
  length), every timestamp lies in exactly one bin of the histogram, every count is the
  number of timestamps in its bin, the counts add up to the number of timestamps, and so
  do the entries of the profile accumulated by the loop, before the correction.
\<close>

theorem counts_conserved:
  assumes "0 < tBinWidth" and "0 < sigma"
    and "x \<in> set detectorData" and "y \<in> set detectorData" and "x < y"
    and "length tp = length phantom" and "length gammaTOF = length phantom" and "phantom \<noteq> []"
  shows "\<exists>tCounts tBinEdges reconstructed.
           time_histogram detectorData tBinWidth = Inr (tCounts, tBinEdges)
           \<and> (\<forall>t\<in>set detectorData. \<exists>!i. i < length tCounts \<and> in_bin tBinEdges i t)
           \<and> (\<forall>i<length tCounts.
                 tCounts ! i = int (length (filter (in_bin tBinEdges i) detectorData)))
           \<and> sum_list tCounts = int (length detectorData)
           \<and> reconstructed_profile phantom detectorData tp gammaTOF tBinWidth sigma
               = Inr reconstructed
           \<and> length reconstructed = length phantom
           \<and> sum_list reconstructed = real (length detectorData)"
proof -
  obtain tCounts tBinEdges where
    th: "time_histogram detectorData tBinWidth = Inr (tCounts, tBinEdges)"
    and lc: "length tCounts = length tBinEdges - 1"
    and sc: "sum_list tCounts = int (length detectorData)"
    and each: "\<forall>i<length tCounts.
                 tCounts ! i = int (length (filter (in_bin tBinEdges i) detectorData))"
    and one: "\<forall>t\<in>set detectorData. \<exists>!i. i < length tCounts \<and> in_bin tBinEdges i t"
    using time_histogram_conserves [OF assms(1,3,4,5)] by blast
  let ?tExpected = "map (\<lambda>(x, y). x + y) (zip tp gammaTOF)"
  have ex: "np_add tp gammaTOF = Inr ?tExpected" using assms(6,7) by (simp add: np_add_same)
  have ne: "?tExpected \<noteq> []" using assms(6,7,8) by auto
  have len: "length (replicate (length phantom) (0 :: real)) = length ?tExpected"
    using assms(6,7) by simp
  have sig: "sigma \<noteq> 0" using assms(2) by simp
  let ?bins = "zip (bin_centres tBinEdges) tCounts"
  obtain r where bp: "back_projection sigma ?tExpected ?bins (replicate (length phantom) 0) = Inr r"
    and lr: "length r = length ?tExpected"
    and sr: "sum_list r = sum_list (replicate (length phantom) (0 :: real))
               + real_of_int (sum_list (map snd ?bins))"
    using back_projection_sum [OF sig ne len, of ?bins] by blast
  have "map snd ?bins = tCounts" using lc by (simp add: length_bin_centres)
  then have "sum_list r = real (length detectorData)" using sr sc by (simp add: sum_list_replicate)
  moreover have "reconstructed_profile phantom detectorData tp gammaTOF tBinWidth sigma = Inr r"
    using ex th bp by (simp add: reconstructed_profile_def)
  moreover have "length r = length phantom" using lr assms(6,7) by simp
  ultimately show ?thesis using th sc each one by blast
qed

theorem counts_conserved_witness:
  "(0 :: real) < 1 \<and> (1 :: real) \<in> set [1, 2] \<and> (2 :: real) \<in> set [1, 2] \<and> (1 :: real) < 2
   \<and> (\<exists>tCounts tBinEdges reconstructed.
           time_histogram [1, 2] 1 = Inr (tCounts, tBinEdges)
           \<and> (\<forall>t\<in>set [1, 2]. \<exists>!i. i < length tCounts \<and> in_bin tBinEdges i t)
           \<and> (\<forall>i<length tCounts.
                 tCounts ! i = int (length (filter (in_bin tBinEdges i) [1, 2])))
           \<and> sum_list tCounts = int (length [1, 2 :: real])
           \<and> reconstructed_profile [0, 1] [1, 2] [0, 1] [1, 1] 1 1 = Inr reconstructed
           \<and> length reconstructed = length [0, 1 :: real]
           \<and> sum_list reconstructed = real (length [1, 2 :: real]))"
  using counts_conserved [of 1 1 1 "[1, 2]" 2 "[0, 1]" "[0, 1]" "[1, 1]"] by simp

text \<open>
  C10, the counterexample: a single timestamp. The range \<open>arange(5, 6, 1)\<close> is the one
  edge 5, one edge makes no bin, and the timestamp is counted nowhere: the profile sums
  to 0, not to 1.
\<close>

theorem counts_lost_counterexample:
  "time_histogram [5] 1 = Inr ([], [5])
   \<and> reconstructed_profile [0] [5] [0] [0] 1 1 = Inr [0]
   \<and> sum_list [0 :: real] \<noteq> real (length [5 :: real])"
  by (simp add: reconstructed_profile_def time_histogram_def np_min_def np_max_def np_arange_def
      np_histogram_def search_sorted_inclusive_def np_diff_def np_add_def np_broadcast_def
      bin_centres_def)


section \<open>The velocity profile\<close>

lemma beta_bounds:
  fixes energy :: real
  assumes "0 \<le> energy"
  shows "0 \<le> sqrt (1 - (938.3 / (energy + 938.3))\<^sup>2) * 300000000"
    and "sqrt (1 - (938.3 / (energy + 938.3))\<^sup>2) * 300000000 \<le> 300000000"
proof -
  define r where "r = 938.3 / (energy + 938.3)"
  have "0 < r" and "r \<le> 1" using assms by (simp_all add: r_def)
  then have "r\<^sup>2 \<le> 1" and "0 \<le> r\<^sup>2" by (simp_all add: power_le_one)
  then have "0 \<le> sqrt (1 - r\<^sup>2)" and "sqrt (1 - r\<^sup>2) \<le> 1" by simp_all
  then show "0 \<le> sqrt (1 - (938.3 / (energy + 938.3))\<^sup>2) * 300000000"
    and "sqrt (1 - (938.3 / (energy + 938.3))\<^sup>2) * 300000000 \<le> 300000000"
    by (simp_all add: r_def)
qed

lemma velocities_loop_Inr:
  "\<forall>z\<in>set zs. energies z \<noteq> None \<Longrightarrow> \<forall>v\<in>set vel. 0 \<le> v \<and> v \<le> 300000000 \<Longrightarrow>
   \<exists>vel'. velocities_loop energies initialE zs vel = Inr vel'
     \<and> length vel' = length vel + length zs \<and> (\<forall>v\<in>set vel'. 0 \<le> v \<and> v \<le> 300000000)"
proof (induction zs arbitrary: vel)
  case Nil
  then show ?case by simp
next
  case (Cons z zs)
  from Cons.prems(1) obtain e where e: "energies z = Some e" by auto
  define energy where "energy = (if initialE - e \<le> 0 then 0 else initialE - e)"
  define velocity where "velocity = sqrt (1 - (938.3 / (energy + 938.3))\<^sup>2) * 300000000"
  have "0 \<le> energy" by (simp add: energy_def)
  then have "0 \<le> velocity \<and> velocity \<le> 300000000"
    unfolding velocity_def using beta_bounds [of energy] by simp
  with Cons.prems(2) have ok: "\<forall>v\<in>set (vel @ [velocity]). 0 \<le> v \<and> v \<le> 300000000" by auto
  from Cons.prems(1) have keys: "\<forall>z\<in>set zs. energies z \<noteq> None" by simp
  from Cons.IH [OF keys ok] obtain vel' where
    "velocities_loop energies initialE zs (vel @ [velocity]) = Inr vel'"
    "length vel' = length (vel @ [velocity]) + length zs"
    "\<forall>v\<in>set vel'. 0 \<le> v \<and> v \<le> 300000000" by blast
  then show ?case using e by (simp add: Let_def energy_def velocity_def)
qed

lemma velocities_loop_KeyError:
  "velocities_loop energies initialE zs vel = Inl err \<longleftrightarrow>
   (\<exists>z. err = KeyError z \<and> List.find (\<lambda>z. energies z = None) zs = Some z)"
proof (induction zs arbitrary: vel)
  case Nil
  then show ?case by simp
next
  case (Cons z zs)
  then show ?case by (cases "energies z") (auto simp: Let_def)
qed


lemma entrance_velocity_ok: "0 \<le> 0.662 * (300000000 :: real) \<and> 0.662 * (300000000 :: real) \<le> 300000000"
  by simp

text \<open>
  C5. When every depth of the axis is a key of the table, \<open>velocities\<close> returns a profile
  as long as the axis, every entry of which lies between 0 and \<open>c = 3e8\<close>: the entries
  computed from a remaining energy that is clamped at zero, and the two entries overridden
  with \<open>0.662 * c\<close>. It returns for every axis of two depths or more; on a shorter one the
  override raises \<open>IndexError\<close>.
\<close>

theorem velocity_bounds:
  assumes "\<forall>z\<in>set phantom. energies z \<noteq> None"
  shows "case velocities energies phantom initialE of
           Inr vel \<Rightarrow> 2 \<le> length phantom \<and> length vel = length phantom
                       \<and> (\<forall>v\<in>set vel. 0 \<le> v \<and> v \<le> 300000000)
         | Inl e \<Rightarrow> e = IndexError \<and> length phantom < 2"
proof -
  obtain vel where loop: "velocities_loop energies initialE phantom [] = Inr vel"
    and len: "length vel = length phantom"
    and ok: "\<forall>v\<in>set vel. 0 \<le> v \<and> v \<le> 300000000"
    using velocities_loop_Inr [OF assms, of "[]" initialE] by auto
  show ?thesis
  proof (cases "2 \<le> length phantom")
    case False
    then show ?thesis using loop len by (simp add: velocities_def Let_def)
  next
    case True
    let ?vel = "vel[0 := 0.662 * 300000000, 1 := 0.662 * 300000000]"
    have "set ?vel \<subseteq> insert (0.662 * 300000000) (insert (0.662 * 300000000) (set vel))"
      by (meson order_trans set_update_subset_insert insert_mono)
    then have "\<forall>v\<in>set ?vel. 0 \<le> v \<and> v \<le> 300000000"
      using ok entrance_velocity_ok by auto
    then show ?thesis using True loop len by (simp add: velocities_def Let_def)
  qed
qed

theorem velocity_bounds_witness:
  "\<exists>vel. velocities (map_of [(0, 0), (1, 50), (2, 200)]) [0, 1, 2] 100 = Inr vel
      \<and> length vel = 3 \<and> list_all (\<lambda>v. 0 \<le> v \<and> v \<le> 300000000) vel"
  using velocity_bounds [of "[0, 1, 2]" "map_of [(0, 0), (1, 50), (2, 200)]" 100]
  by (auto simp: list_all_iff split: sum.splits)

text \<open>
  C9. \<open>velocities\<close> raises \<open>KeyError\<close> (a \<open>LookupError\<close>) exactly when some depth of the axis
  is not a key of the table, and the error names the first such depth; when every depth is
  a key, it raises no \<open>KeyError\<close>.
\<close>

theorem lookup_error_iff_missing_key:
  "(velocities energies phantom initialE = Inl (KeyError z)
      \<longleftrightarrow> List.find (\<lambda>z. energies z = None) phantom = Some z)
   \<and> ((\<exists>z. velocities energies phantom initialE = Inl (KeyError z))
      \<longleftrightarrow> (\<exists>z\<in>set phantom. energies z = None))"
proof -
  have first: "velocities energies phantom initialE = Inl (KeyError z)
      \<longleftrightarrow> List.find (\<lambda>z. energies z = None) phantom = Some z" for z
  proof (cases "velocities_loop energies initialE phantom []")
    case (Inl err)
    then show ?thesis
      using velocities_loop_KeyError [of energies initialE phantom "[]" err]
      by (auto simp: velocities_def)
  next
    case (Inr vel)
    then have "List.find (\<lambda>z. energies z = None) phantom \<noteq> Some z"
      using velocities_loop_KeyError [of energies initialE phantom "[]" "KeyError z"] by auto
    then show ?thesis using Inr by (simp add: velocities_def Let_def)
  qed
  have "(\<exists>z. List.find (\<lambda>z. energies z = None) phantom = Some z)
        \<longleftrightarrow> (\<exists>z\<in>set phantom. energies z = None)"
    using find_None_iff [of "\<lambda>z. energies z = None" phantom] by auto
  then show ?thesis using first by simp
qed

theorem lookup_error_witness:
  "velocities (map_of [(0, 0), (2, 200)]) [0, 1, 2] 100 = Inl (KeyError 1)"
  using lookup_error_iff_missing_key [of "map_of [(0, 0), (2, 200)]" "[0, 1, 2]" 100 1]
  by simp

section \<open>The time of flight of the proton\<close>

lemma sorted_cumsum_from: "\<forall>x\<in>set xs. 0 \<le> x \<Longrightarrow> sorted (acc # cumsum_from acc xs)"
proof (induction xs arbitrary: acc)
  case Nil
  then show ?case by simp
next
  case (Cons x xs)
  then have "sorted ((acc + x) # cumsum_from (acc + x) xs)" by simp
  moreover have "acc \<le> acc + x" using Cons.prems by simp
  ultimately show ?case by (auto simp: order_trans [of acc "acc + x"])
qed

lemma length_cumsum_from: "length (cumsum_from acc xs) = length xs"
  by (induction xs arbitrary: acc) simp_all

lemma np_diff_pos: "sorted_wrt (<) xs \<Longrightarrow> \<forall>d\<in>set (np_diff xs). 0 < (d :: real)"
proof (induction xs)
  case Nil
  then show ?case by (simp add: np_diff_def)
next
  case (Cons x xs)
  then show ?case by (cases xs) (simp_all add: np_diff_def)
qed

lemma in_set_tl: "x \<in> set (tl xs) \<Longrightarrow> x \<in> set xs"
  by (cases xs) simp_all

lemma integrand_nonneg: "\<forall>v\<in>set vel. 0 \<le> v \<Longrightarrow> \<forall>y\<in>set (integrand vel). 0 \<le> y"
  by (auto simp: integrand_def)

text \<open>
  C4. For velocities that are not negative and a strictly increasing depth axis of the same
  length, with at least one depth, \<open>ProtonTime\<close> returns an array as long as the axis that
  starts at 0, has no negative entry and never decreases; and the integrand is 0 wherever
  the velocity is 0.
\<close>

theorem proton_time_monotone:
  assumes "\<forall>v\<in>set vel. 0 \<le> v" and "sorted_wrt (<) phantom"
    and "length vel = length phantom" and "vel \<noteq> []"
  shows "\<exists>tp. ProtonTime vel phantom = Inr tp \<and> length tp = length phantom \<and> hd tp = 0
           \<and> (\<forall>t\<in>set tp. 0 \<le> t) \<and> sorted tp
           \<and> (\<forall>i<length vel. vel ! i = 0 \<longrightarrow> integrand vel ! i = 0)"
proof -
  let ?y = "integrand vel"
  let ?d = "np_diff phantom"
  let ?steps = "map (\<lambda>(d, (a, b)). d * (a + b) / 2) (zip ?d (zip (tl ?y) (butlast ?y)))"
  have ly: "length ?y = length vel" by (simp add: integrand_def)
  have ld: "length ?d = length ?y - 1" using assms(3) ly by (simp add: np_diff_def)
  have y0: "\<forall>y\<in>set ?y. 0 \<le> y" using assms(1) by (rule integrand_nonneg)
  have d0: "\<forall>d\<in>set ?d. 0 < d" using assms(2) by (rule np_diff_pos)
  have steps: "\<forall>s\<in>set ?steps. 0 \<le> s"
  proof
    fix s assume "s \<in> set ?steps"
    then obtain d a b where m: "(d, (a, b)) \<in> set (zip ?d (zip (tl ?y) (butlast ?y)))"
      and s: "s = d * (a + b) / 2" by auto
    from m have "d \<in> set ?d" and "(a, b) \<in> set (zip (tl ?y) (butlast ?y))"
      by (auto dest: set_zip_leftD set_zip_rightD)
    then have "d \<in> set ?d" and "a \<in> set (tl ?y)" and "b \<in> set (butlast ?y)"
      by (auto dest: set_zip_leftD set_zip_rightD)
    then have "0 < d" and "0 \<le> a" and "0 \<le> b"
      using d0 y0 by (auto dest: in_set_tl in_set_butlastD)
    then show "0 \<le> s" unfolding s by simp
  qed
  define tp where "tp = 0 # np_cumsum ?steps"
  have yne: "?y \<noteq> []" using assms(4) by (simp add: integrand_def)
  have run: "ProtonTime vel phantom = Inr tp"
    using yne ld by (simp add: ProtonTime_def cumulative_trapezoid_def Let_def tp_def)
  have srt: "sorted tp" unfolding tp_def np_cumsum_def using steps by (rule sorted_cumsum_from)
  then have nonneg: "\<forall>t\<in>set tp. 0 \<le> t" by (auto simp: tp_def)
  have len: "length tp = length phantom"
    using assms(3,4) ld ly by (cases vel) (simp_all add: tp_def np_cumsum_def length_cumsum_from)
  have zero: "\<forall>i<length vel. vel ! i = 0 \<longrightarrow> integrand vel ! i = 0"
    by (simp add: integrand_def)
  show ?thesis using run len srt nonneg zero by (auto simp: tp_def)
qed

theorem proton_time_monotone_witness:
  "sorted_wrt (<) [0, 1, 2 :: real] \<and> length [2, 1, 0 :: real] = length [0, 1, 2 :: real]
   \<and> (\<exists>tp. ProtonTime [2, 1, 0] [0, 1, 2] = Inr tp \<and> length tp = 3 \<and> hd tp = 0
          \<and> list_all (\<lambda>t. 0 \<le> t) tp \<and> sorted tp \<and> integrand [2, 1, 0] ! 2 = 0)"
  using proton_time_monotone [of "[2, 1, 0]" "[0, 1, 2]"] by (auto simp: list_all_iff)


section \<open>The fall-off of the Bragg curve\<close>

lemma plateau_and_peak_pos:
  fixes entranceDose peakHeight :: real
  assumes "0 \<le> entranceDose" and "0 \<le> peakHeight" and "0 < entranceDose + peakHeight"
  shows "0 < entranceDose + peakHeight * exp x"
proof (cases "0 < entranceDose")
  case True
  moreover have "0 \<le> peakHeight * exp x" using assms(2) by simp
  ultimately show ?thesis by linarith
next
  case False
  with assms have "0 < peakHeight" by linarith
  then have "0 < peakHeight * exp x" by simp
  with assms(1) show ?thesis by linarith
qed

lemma falloff_decreasing:
  fixes d1 d2 p :: real
  assumes "0 \<le> entranceDose" and "0 \<le> peakHeight" and "0 < entranceDose + peakHeight"
    and "peakWidth \<noteq> 0" and "0 < falloffSteepness" and "p < d1" and "d1 < d2"
  shows "(entranceDose + peakHeight * exp (- (d2 - p)\<^sup>2 / (2 * peakWidth\<^sup>2)))
           * exp (- (d2 - p) / falloffSteepness)
         < (entranceDose + peakHeight * exp (- (d1 - p)\<^sup>2 / (2 * peakWidth\<^sup>2)))
           * exp (- (d1 - p) / falloffSteepness)"
proof -
  define A1 where "A1 = entranceDose + peakHeight * exp (- (d1 - p)\<^sup>2 / (2 * peakWidth\<^sup>2))"
  define A2 where "A2 = entranceDose + peakHeight * exp (- (d2 - p)\<^sup>2 / (2 * peakWidth\<^sup>2))"
  define B1 where "B1 = exp (- (d1 - p) / falloffSteepness)"
  define B2 where "B2 = exp (- (d2 - p) / falloffSteepness)"
  have w: "0 < 2 * peakWidth\<^sup>2" using assms(4) by simp
  have "(d1 - p)\<^sup>2 \<le> (d2 - p)\<^sup>2" using assms(6,7) by (intro power_mono) simp_all
  then have "- (d2 - p)\<^sup>2 / (2 * peakWidth\<^sup>2) \<le> - (d1 - p)\<^sup>2 / (2 * peakWidth\<^sup>2)"
    using w by (simp add: divide_right_mono)
  then have "exp (- (d2 - p)\<^sup>2 / (2 * peakWidth\<^sup>2)) \<le> exp (- (d1 - p)\<^sup>2 / (2 * peakWidth\<^sup>2))"
    by simp
  then have A: "A2 \<le> A1" unfolding A1_def A2_def using assms(2) by (simp add: mult_left_mono)
  have A1pos: "0 < A1" unfolding A1_def using assms(1,2,3) by (rule plateau_and_peak_pos)
  have "- (d2 - p) / falloffSteepness < - (d1 - p) / falloffSteepness"
    using assms(5,7) by (simp add: divide_strict_right_mono)
  then have B: "B2 < B1" unfolding B1_def B2_def by simp
  have B2pos: "0 < B2" unfolding B2_def by simp
  have "A2 * B2 \<le> A1 * B2" using A B2pos by (simp add: mult_right_mono)
  also have "\<dots> < A1 * B1" using B A1pos by (simp add: mult_strict_left_mono)
  finally show ?thesis unfolding A1_def A2_def B1_def B2_def .
qed

text \<open>
  C6. On a strictly increasing depth axis, of two depths beyond the peak position the
  deeper one has the strictly smaller dose. This holds for the default shape of the curve
  (peak height 1, entrance dose 0.3, peak width 8, fall-off steepness 5), with which every
  caller draws it, and for every other shape with a non-negative plateau and peak height
  that are not both zero, a peak width that is not zero and a positive steepness.
\<close>

theorem bragg_falloff_strictly_decreasing:
  assumes "0 \<le> entranceDose" and "0 \<le> peakHeight" and "0 < entranceDose + peakHeight"
    and "peakWidth \<noteq> 0" and "0 < falloffSteepness"
    and "sorted_wrt (<) depths" and "i < j" and "j < length depths"
    and "braggPosition < depths ! i"
  shows "\<exists>dose. CreateBraggCurve depths braggPosition peakHeight entranceDose peakWidth
                  falloffSteepness = Inr dose
           \<and> length dose = length depths \<and> dose ! j < dose ! i"
proof -
  let ?f = "\<lambda>d. let entrance = entranceDose;
            peak = peakHeight * exp (- (d - braggPosition)\<^sup>2 / (2 * peakWidth\<^sup>2))
        in if d > braggPosition
           then (entrance + peak) * exp (- (d - braggPosition) / falloffSteepness)
           else entrance + peak"
  have run: "CreateBraggCurve depths braggPosition peakHeight entranceDose peakWidth
               falloffSteepness = Inr (map ?f depths)"
    using assms(4,5) by (simp add: CreateBraggCurve_def)
  have ij: "depths ! i < depths ! j"
    using assms(6,7,8) by (simp add: sorted_wrt_iff_nth_less)
  then have pj: "braggPosition < depths ! j" using assms(9) by linarith
  have "?f (depths ! j) < ?f (depths ! i)"
    using falloff_decreasing [OF assms(1,2,3,4,5,9) ij] assms(9) pj by (simp add: Let_def)
  moreover have "map ?f depths ! i = ?f (depths ! i)" and "map ?f depths ! j = ?f (depths ! j)"
    using assms(7,8) by simp_all
  ultimately have "map ?f depths ! j < map ?f depths ! i" by (simp only:)
  with run show ?thesis by simp
qed

theorem bragg_falloff_witness:
  "sorted_wrt (<) [149, 151, 152 :: real] \<and> (150 :: real) < [149, 151, 152] ! 1
   \<and> (\<exists>dose. CreateBraggCurve_default [149, 151, 152] 150 = Inr dose
          \<and> length dose = length [149, 151, 152 :: real] \<and> dose ! 2 < dose ! 1)"
  using bragg_falloff_strictly_decreasing [of "0.3" "1.0" 8 5 "[149, 151, 152]" 1 2 150]
  by (simp add: CreateBraggCurve_default_def)


section \<open>The event list of a burst\<close>

lemma default_curve_pos:
  "\<exists>dose. CreateBraggCurve_default phantom peak = Inr dose \<and> length dose = length phantom
     \<and> (\<forall>x\<in>set dose. 0 < x)"
proof -
  have "0 < (0.3 + exp x) * exp y" for x y :: real
    by (intro mult_pos_pos add_pos_pos) simp_all
  moreover have "0 < 0.3 + exp x" for x :: real
    by (intro add_pos_pos) simp_all
  ultimately show ?thesis
    by (auto simp: CreateBraggCurve_default_def CreateBraggCurve_def Let_def)
qed

lemma np_multiply_nonneg:
  assumes "length xs = length ys" and "\<forall>x\<in>set xs. 0 \<le> x" and "\<forall>y\<in>set ys. 0 \<le> y"
  shows "\<exists>zs. np_multiply xs ys = Inr zs \<and> length zs = length xs \<and> (\<forall>z\<in>set zs. 0 \<le> z)"
proof -
  have "\<forall>z\<in>set (map (\<lambda>(x, y). x * y) (zip xs ys)). 0 \<le> z"
  proof
    fix z assume "z \<in> set (map (\<lambda>(x, y). x * y) (zip xs ys))"
    then obtain x y where xy: "(x, y) \<in> set (zip xs ys)" and z: "z = x * y" by auto
    from xy have "x \<in> set xs" and "y \<in> set ys" by (auto dest: set_zip_leftD set_zip_rightD)
    with assms(2,3) show "0 \<le> z" unfolding z by simp
  qed
  then show ?thesis using assms(1) by (simp add: np_multiply_def np_broadcast_same)
qed

lemma expected_counts_nonneg:
  assumes "length distMag = length phantom" and "phantom \<noteq> []"
    and "\<forall>d\<in>set distMag. d \<noteq> 0" and "0 \<le> pPB" and "0 \<le> yiel" and "0 \<le> dArea"
  shows "\<exists>mean. expected_counts phantom distMag peak pPB yiel dArea mu = Inr mean
           \<and> length mean = length phantom \<and> (\<forall>lam\<in>set mean. 0 \<le> lam)"
proof -
  obtain dose where curve: "CreateBraggCurve_default phantom peak = Inr dose"
    and ld: "length dose = length phantom" and dpos: "\<forall>x\<in>set dose. 0 < x"
    using default_curve_pos [of phantom peak] by blast
  have dne: "dose \<noteq> []" using ld assms(2) by auto
  define m where "m = Max (set dose)"
  have mx: "np_max dose = Inr m" using dne by (simp add: np_max_def m_def)
  have "m \<in> set dose" unfolding m_def using dne by (intro Max_in) simp_all
  then have mpos: "0 < m" using dpos by simp
  define nEmit where "nEmit = map (\<lambda>x. pPB * yiel * x) (map (\<lambda>x. x / m) dose)"
  define att where "att = map (\<lambda>d. exp (- mu * (d / 10))) distMag"
  define sens where "sens = map (\<lambda>d. dArea / (4 * pi * (d / 1000)\<^sup>2)) distMag"
  have n0: "\<forall>x\<in>set nEmit. 0 \<le> x"
  proof
    fix x assume "x \<in> set nEmit"
    then obtain y where "y \<in> set dose" and x: "x = pPB * yiel * (y / m)"
      by (auto simp: nEmit_def)
    then have "0 \<le> y / m" using dpos mpos by (simp add: less_imp_le)
    then show "0 \<le> x" unfolding x using assms(4,5) by (intro mult_nonneg_nonneg)
  qed
  have a0: "\<forall>x\<in>set att. 0 \<le> x" by (auto simp: att_def)
  have s0: "\<forall>x\<in>set sens. 0 \<le> x" using assms(6) by (auto simp: sens_def)
  have se: "sensitivity dArea distMag = Inr sens"
    using assms(3) by (simp add: sens_def sensitivity_Inr)
  have "length nEmit = length sens" using ld assms(1) by (simp add: nEmit_def sens_def)
  from np_multiply_nonneg [OF this n0 s0] obtain detected where
    det: "np_multiply nEmit sens = Inr detected" and ldet: "length detected = length nEmit"
    and d0: "\<forall>z\<in>set detected. 0 \<le> z" by blast
  have "length detected = length att" using ldet ld assms(1) by (simp add: nEmit_def att_def)
  from np_multiply_nonneg [OF this d0 a0] obtain mean where
    mean: "np_multiply detected att = Inr mean" and lm: "length mean = length detected"
    and m0: "\<forall>z\<in>set mean. 0 \<le> z" by blast
  have "expected_counts phantom distMag peak pPB yiel dArea mu = Inr mean"
    using curve mx mpos se det mean
    by (simp add: expected_counts_def Let_def nEmit_def att_def)
  moreover have "length mean = length phantom" using lm ldet ld by (simp add: nEmit_def)
  ultimately show ?thesis using m0 by blast
qed

lemma detected_counts_Inr:
  "\<forall>lam\<in>set mean. 0 \<le> lam \<Longrightarrow>
   \<exists>k. detected_counts rng mean = Inr k \<and> length k = length mean"
  by (auto simp: detected_counts_def list_ex_iff not_less)

lemma length_repeat:
  "length xs = length k \<Longrightarrow>
   length (concat (map (\<lambda>(x, n). replicate n x) (zip xs k))) = sum_list k"
  by (induction xs k rule: list_induct2) simp_all

text \<open>
  C7. For arrays of the length of a non-empty depth axis, distances that are not zero and
  parameters that are not negative, \<open>SimulateBurst\<close> returns, whatever the draws: the
  counts \<open>k\<close> drawn for the bins (signal plus background), then for every bin \<open>k\<close> copies
  of its base time \<open>distance / 3e8 + tp\<close>, in the order of the bins, which makes as many
  timestamps as the counts add up to; and to the \<open>j\<close>-th timestamp it adds the \<open>j\<close>-th
  normal draw, of scale \<open>dTRes\<close>. That the draws are independent, Poisson and Gaussian is
  a property of the generator and not of this function; the generator is an argument here.
\<close>

theorem burst_event_list:
  assumes "length distMag = length phantom" and "length tp = length phantom"
    and "phantom \<noteq> []" and "\<forall>d\<in>set distMag. d \<noteq> 0"
    and "0 \<le> pPB" and "0 \<le> yiel" and "0 \<le> dArea" and "0 \<le> dTRes"
  shows "\<exists>mean k measuredTime.
           expected_counts phantom distMag peak pPB yiel dArea mu = Inr mean
           \<and> detected_counts rng mean = Inr k \<and> length k = length phantom
           \<and> measuredTime = concat (map (\<lambda>(base, n). replicate n base)
                 (zip (map (\<lambda>(d, t). d / 300000000 + t) (zip distMag tp)) k))
           \<and> length measuredTime = sum_list k
           \<and> SimulateBurst rng phantom distMag peak pPB yiel dArea mu tp dTRes
               = Inr (map (\<lambda>(t, j). t + dTRes * standard_normal rng j)
                       (zip measuredTime [0..<sum_list k]))"
proof -
  obtain mean where mean: "expected_counts phantom distMag peak pPB yiel dArea mu = Inr mean"
    and lm: "length mean = length phantom" and m0: "\<forall>lam\<in>set mean. 0 \<le> lam"
    using expected_counts_nonneg [OF assms(1,3,4,5,6,7)] by blast
  obtain k where k: "detected_counts rng mean = Inr k" and lk: "length k = length mean"
    using detected_counts_Inr [OF m0] by blast
  define baseTime where "baseTime = map (\<lambda>(d, t). d / 300000000 + t) (zip distMag tp)"
  define measuredTime where
    "measuredTime = concat (map (\<lambda>(base, n). replicate n base) (zip baseTime k))"
  have base: "np_add (map (\<lambda>d. d / 300000000) distMag) tp = Inr baseTime"
    using assms(1,2) by (simp add: np_add_same baseTime_def zip_map1 case_prod_unfold)
  have lb: "length baseTime = length k" using assms(1,2) lk lm by (simp add: baseTime_def)
  have rep: "np_repeat baseTime k = Inr measuredTime"
    using lb by (simp add: np_repeat_def measuredTime_def)
  have lmt: "length measuredTime = sum_list k"
    unfolding measuredTime_def using lb by (rule length_repeat)
  define timingJitter where
    "timingJitter = map (\<lambda>j. 0 + dTRes * standard_normal rng j) [0..<length measuredTime]"
  have jit: "np_random_normal rng dTRes (length measuredTime) = Inr timingJitter"
    using assms(8) by (simp add: np_random_normal_def timingJitter_def)
  have "np_iadd measuredTime timingJitter
        = Inr (map (\<lambda>(x, y). x + y) (zip measuredTime timingJitter))"
    by (simp add: np_iadd_same timingJitter_def)
  also have "map (\<lambda>(x, y). x + y) (zip measuredTime timingJitter)
        = map (\<lambda>(t, j). t + dTRes * standard_normal rng j) (zip measuredTime [0..<sum_list k])"
    by (simp add: timingJitter_def zip_map2 case_prod_unfold lmt)
  finally have "SimulateBurst rng phantom distMag peak pPB yiel dArea mu tp dTRes
        = Inr (map (\<lambda>(t, j). t + dTRes * standard_normal rng j) (zip measuredTime [0..<sum_list k]))"
    using mean k base rep jit by (simp add: SimulateBurst_def Let_def)
  then show ?thesis
    using mean k lk lm lmt unfolding measuredTime_def baseTime_def by simp
qed


theorem burst_event_list_witness:
  "length [300000000 :: real] = length [0 :: real] \<and> length [1 :: real] = length [0 :: real]
   \<and> (\<exists>mean k measuredTime.
         expected_counts [0] [300000000] 150 50 1 1 0 = Inr mean
         \<and> detected_counts \<lparr>poisson_signal = \<lambda>i. 2, poisson_background = \<lambda>i. 3,
              standard_normal = \<lambda>j. real j\<rparr> mean = Inr k
         \<and> length k = length [0 :: real]
         \<and> measuredTime = concat (map (\<lambda>(base, n). replicate n base)
               (zip (map (\<lambda>(d, t). d / 300000000 + t) (zip [300000000] [1])) k))
         \<and> length measuredTime = sum_list k
         \<and> SimulateBurst \<lparr>poisson_signal = \<lambda>i. 2, poisson_background = \<lambda>i. 3,
              standard_normal = \<lambda>j. real j\<rparr> [0] [300000000] 150 50 1 1 0 [1] 1
             = Inr (map (\<lambda>(t, j). t + 1 * real j) (zip measuredTime [0..<sum_list k])))"
  using burst_event_list [of "[300000000]" "[0]" "[1]" 50 1 1 1 150 0
      "\<lparr>poisson_signal = \<lambda>i. 2, poisson_background = \<lambda>i. 3, standard_normal = \<lambda>j. real j\<rparr>"]
  by simp


text \<open>
  A burst computed through: no protons, so only the background of 3 counts in the one
  bin, whose base time is \<open>1 + 1\<close>, and the draws \<open>0, 1, 2\<close> as jitter.
\<close>

lemma burst_example:
  "SimulateBurst \<lparr>poisson_signal = \<lambda>i. 2, poisson_background = \<lambda>i. 3,
      standard_normal = \<lambda>j. real j\<rparr> [0] [300000000] 150 0 1 1 0 [1] 1 = Inr [2, 3, 4]"
proof -
  have "(3 / 10 + exp x) \<noteq> 0" for x :: real
    using add_pos_pos [of "3 / 10" "exp x"] by simp
  then show ?thesis
    by (simp add: SimulateBurst_def expected_counts_def CreateBraggCurve_default_def
        CreateBraggCurve_def np_max_def sensitivity_def np_multiply_def np_broadcast_def
        detected_counts_def np_add_def np_repeat_def np_random_normal_def np_iadd_def Let_def
        numeral_3_eq_3 upt_rec)
qed


end
